theory Spec2Isabelle
  imports Complex_Main "HOL-Library.AList" "HOL-Library.Multiset"
begin

section \<open>Strings as the scraper uses them\<close>

text \<open>
  Python strings are modelled as \<open>string\<close>; a \<open>char\<close> stands for a code point below 256.
  \<open>is_space\<close> is the whitespace class of \<open>str.strip\<close> and of the regular expression
  escape \<open>\s\<close> on that range, \<open>lower\<close> is \<open>str.lower\<close> on that range, and
  \<open>contains sub s\<close> is Python's \<open>sub in s\<close>.
\<close>

definition is_space :: "char \<Rightarrow> bool" where
  "is_space c = (c \<in> set [CHR 0x09, CHR 0x0A, CHR 0x0B, CHR 0x0C, CHR 0x0D,
                          CHR 0x1C, CHR 0x1D, CHR 0x1E, CHR 0x1F, CHR 0x20,
                          CHR 0x85, CHR 0xA0])"

definition strip :: "string \<Rightarrow> string" where
  "strip s = rev (dropWhile is_space (rev (dropWhile is_space s)))"

definition lower_char :: "char \<Rightarrow> char" where
  "lower_char c =
     (let n = (of_char c :: nat)
      in if (65 \<le> n \<and> n \<le> 90) \<or> (192 \<le> n \<and> n \<le> 222 \<and> n \<noteq> 215)
         then char_of (n + 32) else c)"

definition lower :: "string \<Rightarrow> string" where
  "lower s = map lower_char s"

fun after_prefix :: "string \<Rightarrow> string \<Rightarrow> string option" where
  "after_prefix [] s = Some s"
| "after_prefix (p # ps) [] = None"
| "after_prefix (p # ps) (c # cs) = (if p = c then after_prefix ps cs else None)"

fun contains :: "string \<Rightarrow> string \<Rightarrow> bool" where
  "contains sub [] = (sub = [])"
| "contains sub (c # cs) = (after_prefix sub (c # cs) \<noteq> None \<or> contains sub cs)"

fun digits :: "nat \<Rightarrow> string" where
  "digits n = (if n < 10 then [char_of (48 + n)]
               else digits (n div 10) @ [char_of (48 + n mod 10)])"

definition str_int :: "int \<Rightarrow> string" where
  "str_int i = (if i < 0 then CHR ''-'' # digits (nat (- i)) else digits (nat i))"

section \<open>The parsed document\<close>

text \<open>
  BeautifulSoup is a library outside the repository, so \<open>parse_vehicle_info\<close> is modelled on
  what its queries return. An element is given by its text nodes in document order, and
  \<open>get_text_strip\<close> is \<open>get_text(strip=True)\<close>: every text node stripped, the empty ones
  dropped, the rest joined without a separator. A \<open>soup\<close> holds
  \<^item> \<open>report_date_parent\<close>: the parent of the first label whose text matches
    \<open>Report Date\s*:\<close> (\<open>None\<close> when \<open>find\<close> returns nothing or the label has no parent);
  \<^item> \<open>vehicle_reg_parent\<close>: the same for \<open>Vehicle Registration Number\s*:\<close>;
  \<^item> \<open>details_table\<close>: the rows (\<open>find_all('tr')\<close>) of the first table of class
    \<open>table table-striped table-condensed\<close>, each row being its cells (\<open>find_all('td')\<close>).
  A document is \<open>Inr\<close> of a soup, or \<open>Inl e\<close> when scanning it raises an exception of text \<open>e\<close>.
\<close>

type_synonym element = "string list"

type_synonym row = "element list"

record soup =
  report_date_parent :: "element option"
  vehicle_reg_parent :: "element option"
  details_table :: "row list option"

type_synonym document = "string + soup"

definition get_text_strip :: "element \<Rightarrow> string" where
  "get_text_strip nodes = concat (filter (\<lambda>s. s \<noteq> []) (map strip nodes))"

text \<open>
  \<open>re_search lit s\<close> is group 1 of \<open>re.search(lit + r'\s*:\s*(.+)', s)\<close> for a literal
  \<open>lit\<close>: the leftmost position where the literal, optional whitespace and a colon are
  followed by optional whitespace and at least one character other than a newline. The
  whitespace after the colon is taken greedily and given back one character at a time
  (\<open>backtrack\<close>) until \<open>.+\<close> has something to match.
\<close>

definition dot_plus :: "string \<Rightarrow> string" where
  "dot_plus s = takeWhile (\<lambda>c. c \<noteq> CHR 0x0A) s"

fun backtrack :: "nat \<Rightarrow> string \<Rightarrow> string option" where
  "backtrack 0 s = (if dot_plus s = [] then None else Some (dot_plus s))"
| "backtrack (Suc k) s =
     (if dot_plus (drop (Suc k) s) = [] then backtrack k s
      else Some (dot_plus (drop (Suc k) s)))"

definition match_here :: "string \<Rightarrow> string \<Rightarrow> string option" where
  "match_here lit s =
     (case after_prefix lit s of
        None \<Rightarrow> None
      | Some r \<Rightarrow>
          (case dropWhile is_space r of
             [] \<Rightarrow> None
           | c # r2 \<Rightarrow>
               if c = CHR '':'' then backtrack (length (takeWhile is_space r2)) r2
               else None))"

fun re_search :: "string \<Rightarrow> string \<Rightarrow> string option" where
  "re_search lit [] = match_here lit []"
| "re_search lit (c # cs) =
     (case match_here lit (c # cs) of
        Some g \<Rightarrow> Some g
      | None \<Rightarrow> re_search lit cs)"

section \<open>Records and the field extractor\<close>

text \<open>
  A result is a Python dict from field names to strings: an association list in insertion
  order, \<open>d[k] = v\<close> being \<open>AList.update\<close> and a lookup \<open>map_of\<close>. The clock reading
  \<open>datetime.now().isoformat()\<close> is the argument \<open>now\<close>.
\<close>

type_synonym vrecord = "(string \<times> string) list"

text \<open>The \<open>if\<close>/\<open>elif\<close> chain of \<open>parse_vehicle_info\<close>: the field a label is mapped to.\<close>

definition label_field :: "string \<Rightarrow> string option" where
  "label_field label_text =
     (if contains ''name of the absolute ownership'' label_text
         \<or> contains ''mortgage if any'' label_text then Some ''name_of_ownership''
      else if contains ''engine number'' label_text then Some ''engine_number''
      else if contains ''vehicle class'' label_text then Some ''vehicle_class''
      else if contains ''conditions and notes'' label_text then Some ''conditions_and_notes''
      else if contains ''make'' label_text \<and> \<not> contains ''year'' label_text then Some ''make''
      else if contains ''model'' label_text then Some ''model''
      else if contains ''year of manufacture'' label_text then Some ''year_of_manufacture''
      else None)"

text \<open>The body of the loop over the rows of the table.\<close>

definition scan_row :: "row \<Rightarrow> vrecord \<Rightarrow> vrecord" where
  "scan_row cells result =
     (if length cells \<ge> 3 then
        (let label_text = lower (get_text_strip (cells ! 0));
             value_text = get_text_strip (cells ! 2)
         in case label_field label_text of
              Some field \<Rightarrow> AList.update field value_text result
            | None \<Rightarrow> result)
      else result)"

definition initial_result :: "string \<Rightarrow> string \<Rightarrow> vrecord" where
  "initial_result vehicle_number now =
     [(''vehicle_number'', vehicle_number),
      (''report_date'', ''''),
      (''name_of_ownership'', ''''),
      (''engine_number'', ''''),
      (''vehicle_class'', ''''),
      (''conditions_and_notes'', ''''),
      (''make'', ''''),
      (''model'', ''''),
      (''year_of_manufacture'', ''''),
      (''status'', ''success''),
      (''timestamp'', now)]"

definition extract_report_date :: "soup \<Rightarrow> vrecord \<Rightarrow> vrecord" where
  "extract_report_date sp result =
     (case report_date_parent sp of
        None \<Rightarrow> result
      | Some parent \<Rightarrow>
          (case re_search ''Report Date'' (get_text_strip parent) of
             None \<Rightarrow> result
           | Some g \<Rightarrow> AList.update ''report_date'' (strip g) result))"

text \<open>
  The registration number echoed by the page is only compared with the requested one and a
  mismatch is logged: \<open>vehicle_number_mismatch\<close> says whether the warning is written. It
  does not touch the result.
\<close>

definition vehicle_number_mismatch :: "soup \<Rightarrow> string \<Rightarrow> bool" where
  "vehicle_number_mismatch sp vehicle_number =
     (case vehicle_reg_parent sp of
        None \<Rightarrow> False
      | Some parent \<Rightarrow>
          (case re_search ''Vehicle Registration Number'' (get_text_strip parent) of
             None \<Rightarrow> False
           | Some g \<Rightarrow> strip g \<noteq> vehicle_number))"

definition scan_table :: "soup \<Rightarrow> vrecord \<Rightarrow> vrecord" where
  "scan_table sp result =
     (case details_table sp of
        None \<Rightarrow> result
      | Some rows \<Rightarrow> fold scan_row rows result)"

definition parse_vehicle_info :: "document \<Rightarrow> string \<Rightarrow> string \<Rightarrow> vrecord" where
  "parse_vehicle_info html_content vehicle_number now =
     (case html_content of
        Inr sp \<Rightarrow>
          scan_table sp (extract_report_date sp (initial_result vehicle_number now))
      | Inl e \<Rightarrow>
          [(''vehicle_number'', vehicle_number),
           (''status'', ''parse_error''),
           (''error'', ''HTML parsing failed: '' @ e),
           (''timestamp'', now)])"

section \<open>The fetcher\<close>

text \<open>
  \<open>VehicleInfoScraper\<close> keeps the configuration: \<open>new_scraper\<close> is its constructor (the
  fixed request headers are left out, nothing below reads them). The delay is a Python
  float: a finite float is the rational it denotes, the others are the infinities and NaN.
\<close>

datatype pyfloat = Finite rat | PosInf | NegInf | NaN

record scraper =
  max_workers :: int
  delay_between_requests :: pyfloat
  fixed_nic :: string
  fixed_contact :: string
  base_url :: string
  cookies :: "(string \<times> string) list"

definition new_scraper :: "int \<Rightarrow> pyfloat \<Rightarrow> string \<Rightarrow> string \<Rightarrow> string option \<Rightarrow> scraper" where
  "new_scraper workers delay nic contact jsessionid =
     \<lparr> max_workers = workers,
       delay_between_requests = delay,
       fixed_nic = nic,
       fixed_contact = contact,
       base_url = ''https://eservices.motortraffic.gov.lk/VehicleInfo/retrieveLimitedVehicleInformation.action'',
       cookies = [(''f5_cspm'', ''1234''),
                  (''JSESSIONID'',
                   (case jsessionid of
                      None \<Rightarrow> ''F750F4D0BE39C97D2AB19DF9148798B8''
                    | Some s \<Rightarrow> if s = [] then ''F750F4D0BE39C97D2AB19DF9148798B8'' else s))] \<rparr>"

text \<open>
  A \<open>request\<close> is one outbound HTTP request. What surrounds one call of
  \<open>get_vehicle_info\<close> is a \<open>call\<close>:
  \<^item> \<open>sleep d\<close> is the text of the exception that \<open>time.sleep(d)\<close> raises, \<open>None\<close> when it
    returns (the library raises \<open>ValueError\<close> for a negative delay and for NaN, and
    \<open>OverflowError\<close> for a delay too large for the clock of the platform);
  \<^item> \<open>post\<close> is how the one call of \<open>requests.post\<close> ends: the text of the exception it
    raises, or the response it returns, with its status code and its body as a document;
  \<^item> \<open>redirects\<close> lists the redirect responses that this call of \<open>requests.post\<close> received
    and followed before it ended (the library follows redirects unless told not to): the
    status code of each and the request sent to follow it;
  \<^item> \<open>now\<close> is the clock reading used for the timestamp.
\<close>

record request =
  req_url :: string
  req_cookies :: "(string \<times> string) list"
  req_data :: "(string \<times> string) list"
  req_verify :: bool
  req_timeout :: nat

record response =
  status_code :: int
  body :: document

record call =
  sleep :: "pyfloat \<Rightarrow> string option"
  redirects :: "(int \<times> request) list"
  post :: "string + response"
  now :: string

definition failed_record :: "string \<Rightarrow> string \<Rightarrow> string \<Rightarrow> vrecord" where
  "failed_record vehicle_number e ts =
     [(''vehicle_number'', vehicle_number),
      (''status'', ''failed''),
      (''error'', e),
      (''timestamp'', ts)]"

text \<open>The request that \<open>get_vehicle_info\<close> hands to \<open>requests.post\<close>.\<close>

definition form_request :: "scraper \<Rightarrow> string \<Rightarrow> request" where
  "form_request self vehicle_number =
     \<lparr> req_url = base_url self,
       req_cookies = cookies self,
       req_data = [(''nicNumber'', fixed_nic self),
                   (''contactNumber'', fixed_contact self),
                   (''vehicleRegistrationNumber'', vehicle_number)],
       req_verify = False,
       req_timeout = 30 \<rparr>"

text \<open>
  \<open>get_vehicle_info\<close> returns the result together with the outbound requests that were
  sent. An exception of \<open>time.sleep\<close> is raised before anything is sent and is caught like
  any other.
\<close>

definition get_vehicle_info :: "scraper \<Rightarrow> call \<Rightarrow> string \<Rightarrow> vrecord \<times> request list" where
  "get_vehicle_info self env vehicle_number =
     (case sleep env (delay_between_requests self) of
        Some e \<Rightarrow> (failed_record vehicle_number e (now env), [])
      | None \<Rightarrow>
          (let sent = form_request self vehicle_number # map snd (redirects env)
           in case post env of
                Inl e \<Rightarrow> (failed_record vehicle_number e (now env), sent)
              | Inr resp \<Rightarrow>
                  if status_code resp = 200 then
                    (parse_vehicle_info (body resp) vehicle_number (now env), sent)
                  else
                    (failed_record vehicle_number (''HTTP '' @ str_int (status_code resp))
                       (now env),
                     sent)))"

section \<open>The thread pool coordinator\<close>

text \<open>
  \<open>process_vehicles\<close> creates a \<open>ThreadPoolExecutor\<close>, which raises \<open>ValueError\<close> when
  \<open>max_workers\<close> is not positive; the exception leaves \<open>process_vehicles\<close> (\<open>Inl\<close>).
  Otherwise it submits one task per key and appends the results in the order in which
  \<open>as_completed\<close> yields the futures. That order is the argument \<open>completion\<close>, a list of
  input positions; \<open>env i\<close> is what surrounds the task of position \<open>i\<close>. A future holds the
  value its task returned (\<open>Inr\<close>) or the exception that left it (\<open>Inl\<close>);
  \<open>get_vehicle_info\<close> catches every exception, so \<open>submit\<close> only builds \<open>Inr\<close>.
\<close>

definition submit :: "scraper \<Rightarrow> call \<Rightarrow> string \<Rightarrow> string + vrecord" where
  "submit self env vehicle_number = Inr (fst (get_vehicle_info self env vehicle_number))"

definition collect :: "string \<Rightarrow> string \<Rightarrow> string + vrecord \<Rightarrow> vrecord list \<Rightarrow> vrecord list" where
  "collect vehicle_number ts future results =
     (case future of
        Inr result \<Rightarrow> if result \<noteq> [] then results @ [result] else results
      | Inl exc \<Rightarrow> results @ [failed_record vehicle_number exc ts])"

definition process_vehicles ::
  "scraper \<Rightarrow> (nat \<Rightarrow> call) \<Rightarrow> nat list \<Rightarrow> string list \<Rightarrow> string + vrecord list" where
  "process_vehicles self env completion vehicle_numbers =
     (if max_workers self \<le> 0 then Inl ''max_workers must be greater than 0''
      else
        Inr (fold (\<lambda>i results.
                     collect (vehicle_numbers ! i) (now (env i))
                             (submit self (env i) (vehicle_numbers ! i)) results)
                  completion []))"

section \<open>The web front end\<close>

text \<open>
  \<open>scraping_status\<close> is a dict whose keys are added as the run goes on, so it is an
  association list of values. Clock readings of \<open>time.time()\<close> are rationals; the rounding
  of floating point arithmetic in the estimated time is not modelled.
\<close>

datatype val = B bool | I int | R rat | S string | L "vrecord list" | NoneV










section \<open>Notions used in the statements\<close>

text \<open>
  The fields that the table rows fill, the attribute fields of a success record, and the
  field and value that \<open>scan_row\<close> reads off a row.
\<close>

definition table_fields :: "string list" where
  "table_fields = [''name_of_ownership'', ''engine_number'', ''vehicle_class'',
                   ''conditions_and_notes'', ''make'', ''model'', ''year_of_manufacture'']"

definition attribute_fields :: "string list" where
  "attribute_fields = ''report_date'' # table_fields"

definition row_field :: "row \<Rightarrow> string option" where
  "row_field cells =
     (if length cells \<ge> 3 then label_field (lower (get_text_strip (cells ! 0))) else None)"

definition row_value :: "row \<Rightarrow> string" where
  "row_value cells = get_text_strip (cells ! 2)"

text \<open>Group 1 of the match that \<open>extract_report_date\<close> looks for.\<close>

definition found_report_date :: "soup \<Rightarrow> string option" where
  "found_report_date sp =
     (case report_date_parent sp of
        None \<Rightarrow> None
      | Some parent \<Rightarrow> re_search ''Report Date'' (get_text_strip parent))"

text \<open>
  The record that the task of input position \<open>i\<close> returns, and the key a record carries.
\<close>

definition task_record :: "scraper \<Rightarrow> (nat \<Rightarrow> call) \<Rightarrow> string list \<Rightarrow> nat \<Rightarrow> vrecord" where
  "task_record self env vehicle_numbers i =
     fst (get_vehicle_info self (env i) (vehicle_numbers ! i))"

definition record_key :: "vrecord \<Rightarrow> string option" where
  "record_key r = map_of r ''vehicle_number''"




definition sleep_returns :: "pyfloat \<Rightarrow> string option" where
  "sleep_returns d = None"



definition always_status :: "int \<Rightarrow> nat \<Rightarrow> call" where
  "always_status code i =
     \<lparr> sleep = sleep_returns, redirects = [],
       post = Inr \<lparr> status_code = code, body = Inl [] \<rparr>, now = ''2024-01-01T10:00:00'' \<rparr>"








text \<open>Example documents: a row of three cells, and pages built from such rows.\<close>

definition table_row :: "string \<Rightarrow> string \<Rightarrow> row" where
  "table_row label v = [[label], [''-''], [v]]"

definition page :: "element option \<Rightarrow> row list option \<Rightarrow> document" where
  "page date_parent table =
     Inr \<lparr> report_date_parent = date_parent, vehicle_reg_parent = None, details_table = table \<rparr>"

section \<open>The extractor: how rows fill the fields\<close>

lemma scan_row_field:
  "scan_row cells result =
     (case row_field cells of
        Some f \<Rightarrow> AList.update f (row_value cells) result
      | None \<Rightarrow> result)"
  by (simp add: scan_row_def row_field_def row_value_def Let_def split: option.splits)

lemma label_field_range: "label_field l = Some f \<Longrightarrow> f \<in> set table_fields"
  by (auto simp: label_field_def table_fields_def split: if_splits)

lemma row_field_range: "row_field cells = Some f \<Longrightarrow> f \<in> set table_fields"
  by (auto simp: row_field_def dest: label_field_range split: if_splits)

lemma map_of_scan_row:
  "map_of (scan_row cells result) f =
     (if row_field cells = Some f then Some (row_value cells) else map_of result f)"
  by (auto simp: scan_row_field update_conv' split: option.splits)

lemma map_of_fold_scan_row:
  "map_of (fold scan_row rows result) f =
     (case filter (\<lambda>r. row_field r = Some f) rows of
        [] \<Rightarrow> map_of result f
      | m # ms \<Rightarrow> Some (row_value (last (m # ms))))"
proof (induction rows rule: rev_induct)
  case Nil
  show ?case by simp
next
  case (snoc r rows)
  show ?case
  proof (cases "row_field r = Some f")
    case True
    then show ?thesis
      by (cases "filter (\<lambda>r. row_field r = Some f) rows") (simp_all add: map_of_scan_row)
  next
    case False
    then show ?thesis using snoc.IH by (simp add: map_of_scan_row)
  qed
qed

lemma map_of_extract_report_date:
  "f \<noteq> ''report_date'' \<Longrightarrow> map_of (extract_report_date sp result) f = map_of result f"
  by (simp add: extract_report_date_def update_conv' split: option.splits)

lemma map_of_initial_table_field:
  "f \<in> set table_fields \<Longrightarrow> map_of (initial_result vn ts) f = Some []"
  by (auto simp: table_fields_def initial_result_def)

lemma table_field_not_report_date: "f \<in> set table_fields \<Longrightarrow> f \<noteq> ''report_date''"
  by (auto simp: table_fields_def)

lemma map_of_scan_table_other:
  assumes "f \<notin> set table_fields"
  shows "map_of (scan_table sp result) f = map_of result f"
proof -
  have "filter (\<lambda>r. row_field r = Some f) rows = []" for rows
    using assms row_field_range by (auto simp: filter_empty_conv)
  then show ?thesis
    by (simp add: scan_table_def map_of_fold_scan_row split: option.splits)
qed

text \<open>
  Claim C4, as stated: when two or more rows of the table have labels matching the same
  field, the field gets the value of the first matching row. It fails: of two rows
  labelled \<open>Engine Number\<close> with the values \<open>A\<close> and \<open>B\<close>, the record holds \<open>B\<close>.
\<close>

theorem first_match_wins_counterexample:
  "map_of (parse_vehicle_info
             (page None (Some [table_row ''Engine Number'' ''A'',
                               table_row ''Engine Number'' ''B'']))
             ''CAB-1234'' ''2024-01-01T10:00:00'') ''engine_number'' = Some ''B''
   \<and> map_of (parse_vehicle_info
             (page None (Some [table_row ''Engine Number'' ''A'',
                               table_row ''Engine Number'' ''B'']))
             ''CAB-1234'' ''2024-01-01T10:00:00'') ''engine_number'' \<noteq> Some ''A''"
  by code_simp

text \<open>
  Claim C4, amended: every row whose label matches a field assigns the field again, so
  when one or more rows of the table match a field, the field holds the value of the last
  matching row (last match wins).
\<close>

theorem last_match_wins:
  assumes "details_table sp = Some rows"
    and "filter (\<lambda>r. row_field r = Some f) rows = ms"
    and "ms \<noteq> []"
  shows "map_of (parse_vehicle_info (Inr sp) vn ts) f = Some (row_value (last ms))"
  using assms
  by (cases ms) (simp_all add: parse_vehicle_info_def scan_table_def map_of_fold_scan_row)

theorem last_match_wins_witness:
  "details_table
     \<lparr> report_date_parent = None, vehicle_reg_parent = None,
       details_table = Some [table_row ''Make'' ''Toyota'', table_row ''Model'' ''Axio'',
                             table_row ''MAKE'' ''Honda''] \<rparr>
     = Some [table_row ''Make'' ''Toyota'', table_row ''Model'' ''Axio'',
             table_row ''MAKE'' ''Honda'']
   \<and> filter (\<lambda>r. row_field r = Some ''make'')
        [table_row ''Make'' ''Toyota'', table_row ''Model'' ''Axio'', table_row ''MAKE'' ''Honda'']
      = [table_row ''Make'' ''Toyota'', table_row ''MAKE'' ''Honda'']
   \<and> map_of (parse_vehicle_info
        (Inr \<lparr> report_date_parent = None, vehicle_reg_parent = None,
               details_table = Some [table_row ''Make'' ''Toyota'', table_row ''Model'' ''Axio'',
                                     table_row ''MAKE'' ''Honda''] \<rparr>)
        ''CAB-1234'' ''2024-01-01T10:00:00'') ''make'' = Some ''Honda''"
proof -
  let ?rows = "[table_row ''Make'' ''Toyota'', table_row ''Model'' ''Axio'',
                table_row ''MAKE'' ''Honda'']"
  let ?sp = "\<lparr> report_date_parent = None, vehicle_reg_parent = None,
               details_table = Some ?rows \<rparr>"
  have h1: "details_table ?sp = Some ?rows" by simp
  have h2: "filter (\<lambda>r. row_field r = Some ''make'') ?rows
              = [table_row ''Make'' ''Toyota'', table_row ''MAKE'' ''Honda'']"
    by code_simp
  have h3: "[table_row ''Make'' ''Toyota'', table_row ''MAKE'' ''Honda''] \<noteq> []" by simp
  have v: "row_value (last [table_row ''Make'' ''Toyota'', table_row ''MAKE'' ''Honda'']) = ''Honda''"
    by code_simp
  from last_match_wins [OF h1 h2 h3, of "''CAB-1234''" "''2024-01-01T10:00:00''"] v h1 h2
  show ?thesis by simp
qed

lemma map_of_report_date:
  "map_of (extract_report_date sp result) ''report_date'' =
     (case found_report_date sp of
        None \<Rightarrow> map_of result ''report_date''
      | Some g \<Rightarrow> Some (strip g))"
  by (simp add: extract_report_date_def found_report_date_def update_conv' split: option.splits)

lemma get_text_strip_single: "get_text_strip [s] = strip s"
  by (simp add: get_text_strip_def)

lemma row_field_three:
  "row_field (e # c # v # cs) = label_field (lower (get_text_strip e))"
  by (simp add: row_field_def)

lemma row_value_three: "row_value (e # c # v # cs) = get_text_strip v"
  by (simp add: row_value_def)

lemma label_field_make:
  "label_field l = Some ''make'' \<Longrightarrow> contains ''make'' l \<and> \<not> contains ''year'' l"
  by (auto simp: label_field_def split: if_splits)

lemma parse_table_field_empty:
  assumes f: "f \<in> set table_fields"
    and none: "\<And>rows. details_table sp = Some rows \<Longrightarrow> \<forall>r \<in> set rows. row_field r \<noteq> Some f"
  shows "map_of (parse_vehicle_info (Inr sp) vn ts) f = Some []"
proof (cases "details_table sp")
  case None
  then show ?thesis
    using f by (simp add: parse_vehicle_info_def scan_table_def map_of_extract_report_date
        table_field_not_report_date map_of_initial_table_field)
next
  case (Some rows)
  then have "filter (\<lambda>r. row_field r = Some f) rows = []"
    using none by (auto simp: filter_empty_conv)
  then show ?thesis
    using f Some by (simp add: parse_vehicle_info_def scan_table_def map_of_fold_scan_row
        map_of_extract_report_date table_field_not_report_date map_of_initial_table_field)
qed

lemma parse_report_date:
  "map_of (parse_vehicle_info (Inr sp) vn ts) ''report_date'' =
     Some (case found_report_date sp of None \<Rightarrow> [] | Some g \<Rightarrow> strip g)"
proof -
  have "''report_date'' \<notin> set table_fields" by (simp add: table_fields_def)
  then show ?thesis
    by (simp add: parse_vehicle_info_def map_of_scan_table_other map_of_report_date
        initial_result_def split: option.splits)
qed

lemma parse_status_success:
  "map_of (parse_vehicle_info (Inr sp) vn ts) ''status'' = Some ''success''"
proof -
  have "''status'' \<notin> set table_fields" by (simp add: table_fields_def)
  then show ?thesis
    by (simp add: parse_vehicle_info_def map_of_scan_table_other map_of_extract_report_date
        initial_result_def)
qed

lemma strip_trimmed:
  "strip s \<noteq> [] \<Longrightarrow> \<not> is_space (hd (strip s)) \<and> \<not> is_space (last (strip s))"
proof -
  assume ne: "strip s \<noteq> []"
  let ?t = "dropWhile is_space s"
  let ?u = "dropWhile is_space (rev ?t)"
  have s: "strip s = rev ?u" by (simp add: strip_def)
  have une: "?u \<noteq> []" using ne s by simp
  have l: "\<not> is_space (hd ?u)" using une by (rule hd_dropWhile)
  have last_eq: "last (strip s) = hd ?u" using une s by (simp add: last_rev)
  have tne: "?t \<noteq> []"
    using une by (metis dropWhile.simps(1) rev.simps(1))
  have ht: "\<not> is_space (hd ?t)" using tne by (rule hd_dropWhile)
  obtain p where p: "rev ?t = p @ ?u" by (metis takeWhile_dropWhile_id)
  then have "?t = rev ?u @ rev p" by (metis rev_append rev_rev_ident)
  then have "hd ?t = hd (rev ?u)" using une by (metis hd_append2 rev_is_Nil_conv)
  then have "\<not> is_space (hd (strip s))" using ht s by simp
  then show ?thesis using l last_eq by simp
qed

lemma strip_inside:
  "\<exists>a b. s = a @ strip s @ b \<and> (\<forall>c \<in> set a. is_space c) \<and> (\<forall>c \<in> set b. is_space c)"
proof -
  let ?a = "takeWhile is_space s"
  let ?t = "dropWhile is_space s"
  let ?p = "takeWhile is_space (rev ?t)"
  let ?u = "dropWhile is_space (rev ?t)"
  have "rev ?t = ?p @ ?u" by simp
  then have t: "?t = rev ?u @ rev ?p" by (metis rev_append rev_rev_ident)
  have "s = ?a @ ?t" by simp
  then have "s = ?a @ strip s @ rev ?p" using t by (simp add: strip_def)
  moreover have "\<forall>c \<in> set ?a. is_space c" by (auto dest: set_takeWhileD)
  moreover have "\<forall>c \<in> set (rev ?p). is_space c" by (auto dest: set_takeWhileD)
  ultimately show ?thesis by blast
qed

lemma parse_table_field:
  assumes "details_table sp = Some rows" and "f \<in> set table_fields"
  shows "map_of (parse_vehicle_info (Inr sp) vn ts) f
           = (case filter (\<lambda>r. length r \<ge> 3
                                \<and> label_field (lower (get_text_strip (r ! 0))) = Some f) rows of
                [] \<Rightarrow> Some []
              | m # ms \<Rightarrow> Some (get_text_strip (last (m # ms) ! 2)))"
proof -
  have e: "(\<lambda>r. row_field r = Some f)
             = (\<lambda>r. length r \<ge> 3 \<and> label_field (lower (get_text_strip (r ! 0))) = Some f)"
    by (rule ext) (simp add: row_field_def)
  have "map_of (parse_vehicle_info (Inr sp) vn ts) f
          = (case filter (\<lambda>r. row_field r = Some f) rows of
               [] \<Rightarrow> Some []
             | m # ms \<Rightarrow> Some (row_value (last (m # ms))))"
    using assms
    by (simp add: parse_vehicle_info_def scan_table_def map_of_fold_scan_row
        map_of_extract_report_date table_field_not_report_date map_of_initial_table_field
        split: list.splits)
  then show ?thesis by (simp add: e row_value_def split: list.splits)
qed

lemma scan_row_label_cong:
  "lower (get_text_strip e) = lower (get_text_strip e')
     \<Longrightarrow> scan_row (e # c # v # cs) = scan_row (e' # c # v # cs)"
  by (rule ext) (simp add: scan_row_def)

lemma parse_label_cong:
  assumes "lower (get_text_strip e) = lower (get_text_strip e')"
    and "details_table sp = Some (rows1 @ [e # c # v # cs] @ rows2)"
  shows "parse_vehicle_info (Inr (sp\<lparr>details_table := Some (rows1 @ [e' # c # v # cs] @ rows2)\<rparr>)) vn ts
           = parse_vehicle_info (Inr sp) vn ts"
  using assms scan_row_label_cong [OF assms(1), of c v cs]
  by (simp add: parse_vehicle_info_def scan_table_def extract_report_date_def)

lemma year_row_field:
  "row_field ([''Year of Manufacture''] # c # v # cs) = Some ''year_of_manufacture''"
proof -
  have "label_field (lower (get_text_strip [''Year of Manufacture''])) = Some ''year_of_manufacture''"
    by code_simp
  then show ?thesis by (simp add: row_field_three)
qed

lemma make_row_field: "row_field ([''Make''] # c # v # cs) = Some ''make''"
proof -
  have "label_field (lower (get_text_strip [''Make''])) = Some ''make''"
    by code_simp
  then show ?thesis by (simp add: row_field_three)
qed

lemma parse_field_rows:
  assumes "details_table sp = Some rows"
  shows "map_of (parse_vehicle_info (Inr sp) vn ts) ''make''
           = (case filter (\<lambda>r. row_field r = Some ''make'') rows of
                [] \<Rightarrow> Some []
              | m # ms \<Rightarrow> Some (row_value (last (m # ms))))"
  using assms
  by (simp add: parse_vehicle_info_def scan_table_def map_of_fold_scan_row
      map_of_extract_report_date initial_result_def split: list.splits)

lemma year_row_leaves_make:
  assumes "details_table sp = Some (rows1 @ [[''Year of Manufacture''] # c # v # cs] @ rows2)"
    and "details_table sp' = Some (rows1 @ rows2)"
  shows "map_of (parse_vehicle_info (Inr sp) vn ts) ''make''
           = map_of (parse_vehicle_info (Inr sp') vn ts) ''make''"
  by (simp add: parse_field_rows [OF assms(1)] parse_field_rows [OF assms(2)] year_row_field)

lemma make_row_sets_make:
  assumes "details_table sp = Some (rows1 @ [[''Make''] # c # v # cs] @ rows2)"
    and "\<forall>r \<in> set rows2. row_field r \<noteq> Some ''make''"
  shows "map_of (parse_vehicle_info (Inr sp) vn ts) ''make'' = Some (get_text_strip v)"
proof -
  have "filter (\<lambda>r. row_field r = Some ''make'') rows2 = []"
    using assms(2) by (auto simp: filter_empty_conv)
  then have "filter (\<lambda>r. row_field r = Some ''make'') (rows1 @ [[''Make''] # c # v # cs] @ rows2)
               = filter (\<lambda>r. row_field r = Some ''make'') rows1 @ [[''Make''] # c # v # cs]"
    by (simp add: make_row_field)
  then show ?thesis
    by (cases "filter (\<lambda>r. row_field r = Some ''make'') rows1")
       (simp_all add: parse_field_rows [OF assms(1)] row_value_three)
qed

lemma make_needs_label:
  assumes "details_table sp = Some rows"
    and "\<forall>r \<in> set rows. length r \<ge> 3 \<longrightarrow>
           \<not> contains ''make'' (lower (get_text_strip (r ! 0)))
           \<or> contains ''year'' (lower (get_text_strip (r ! 0)))"
  shows "map_of (parse_vehicle_info (Inr sp) vn ts) ''make'' = Some []"
proof -
  have "row_field r \<noteq> Some ''make''" if "r \<in> set rows" for r
    using that assms(2) label_field_make [of "lower (get_text_strip (r ! 0))"]
    by (auto simp: row_field_def split: if_splits)
  then have "filter (\<lambda>r. row_field r = Some ''make'') rows = []"
    by (auto simp: filter_empty_conv)
  then show ?thesis by (simp add: parse_field_rows [OF assms(1)])
qed

lemma unscanned_has_no_attribute:
  "f \<in> set attribute_fields \<Longrightarrow> map_of (parse_vehicle_info (Inl e) vn ts) f = None"
  by (auto simp: attribute_fields_def table_fields_def parse_vehicle_info_def)

text \<open>
  Claim C5, as stated: every field with no matching row is the empty string in the returned
  record, rather than null or absent. It fails for a document whose scanning raises: no row
  is matched, and the record that is returned holds none of the attribute fields.
\<close>

theorem unscanned_record_counterexample:
  "map_of (parse_vehicle_info (Inl ''bad markup'') ''CAB-1234'' ''2024-01-01T10:00:00'') ''make''
     = None
   \<and> map_of (parse_vehicle_info (Inl ''bad markup'') ''CAB-1234'' ''2024-01-01T10:00:00'') ''make''
     \<noteq> Some ''''"
  by code_simp

text \<open>
  Claim C5, amended: in the record returned for a document that is scanned without an
  exception, a table field holds the value of the last row whose label, taken as
  lower-cased text with every text node stripped of surrounding whitespace, is mapped to
  that field, so that label cells which agree up to case and surrounding whitespace give
  the same record; \<open>make\<close> is filled only when some label contains \<open>make\<close> and not
  \<open>year\<close>, a row labelled \<open>Year of Manufacture\<close> leaves \<open>make\<close> as it is without that row,
  and a bare \<open>Make\<close> row that no later \<open>make\<close> row follows sets it; every table field that
  no row matches, and the report date when none is found, is the empty string. The record
  returned when scanning raises holds none of the attribute fields.
\<close>

theorem label_matching:
  "(details_table sp = Some rows \<and> f \<in> set table_fields \<longrightarrow>
      map_of (parse_vehicle_info (Inr sp) vn ts) f
        = (case filter (\<lambda>r. length r \<ge> 3
                             \<and> label_field (lower (get_text_strip (r ! 0))) = Some f) rows of
             [] \<Rightarrow> Some []
           | m # ms \<Rightarrow> Some (get_text_strip (last (m # ms) ! 2))))
   \<and> get_text_strip [l] = strip l
   \<and> (strip l \<noteq> [] \<longrightarrow> \<not> is_space (hd (strip l)) \<and> \<not> is_space (last (strip l)))
   \<and> (\<exists>a b. l = a @ strip l @ b \<and> (\<forall>c \<in> set a. is_space c) \<and> (\<forall>c \<in> set b. is_space c))
   \<and> (lower (get_text_strip e) = lower (get_text_strip e')
        \<and> details_table sp = Some (rows1 @ [e # c # v # cs] @ rows2)
      \<longrightarrow> parse_vehicle_info
            (Inr (sp\<lparr>details_table := Some (rows1 @ [e' # c # v # cs] @ rows2)\<rparr>)) vn ts
          = parse_vehicle_info (Inr sp) vn ts)
   \<and> (details_table sp = Some rows
        \<and> (\<forall>r \<in> set rows. length r \<ge> 3 \<longrightarrow>
              \<not> contains ''make'' (lower (get_text_strip (r ! 0)))
              \<or> contains ''year'' (lower (get_text_strip (r ! 0))))
      \<longrightarrow> map_of (parse_vehicle_info (Inr sp) vn ts) ''make'' = Some [])
   \<and> (details_table sp = Some (rows1 @ [[''Year of Manufacture''] # c # v # cs] @ rows2)
        \<and> details_table sp' = Some (rows1 @ rows2)
      \<longrightarrow> map_of (parse_vehicle_info (Inr sp) vn ts) ''make''
          = map_of (parse_vehicle_info (Inr sp') vn ts) ''make'')
   \<and> (details_table sp = Some (rows1 @ [[''Make''] # c # v # cs] @ rows2)
        \<and> (\<forall>r \<in> set rows2. row_field r \<noteq> Some ''make'')
      \<longrightarrow> map_of (parse_vehicle_info (Inr sp) vn ts) ''make'' = Some (get_text_strip v))
   \<and> (f \<in> set table_fields
        \<and> (\<forall>rows. details_table sp = Some rows \<longrightarrow> (\<forall>row \<in> set rows. row_field row \<noteq> Some f))
      \<longrightarrow> map_of (parse_vehicle_info (Inr sp) vn ts) f = Some [])
   \<and> (found_report_date sp = None
      \<longrightarrow> map_of (parse_vehicle_info (Inr sp) vn ts) ''report_date'' = Some [])
   \<and> (f \<in> set attribute_fields \<longrightarrow> map_of (parse_vehicle_info (Inl x) vn ts) f = None)"
proof -
  have c1: "details_table sp = Some rows \<and> f \<in> set table_fields \<longrightarrow>
      map_of (parse_vehicle_info (Inr sp) vn ts) f
        = (case filter (\<lambda>r. length r \<ge> 3
                             \<and> label_field (lower (get_text_strip (r ! 0))) = Some f) rows of
             [] \<Rightarrow> Some []
           | m # ms \<Rightarrow> Some (get_text_strip (last (m # ms) ! 2)))"
    using parse_table_field [of sp rows f vn ts] by blast
  have c3: "strip l \<noteq> [] \<longrightarrow> \<not> is_space (hd (strip l)) \<and> \<not> is_space (last (strip l))"
    using strip_trimmed [of l] by blast
  have c5: "lower (get_text_strip e) = lower (get_text_strip e')
        \<and> details_table sp = Some (rows1 @ [e # c # v # cs] @ rows2)
      \<longrightarrow> parse_vehicle_info
            (Inr (sp\<lparr>details_table := Some (rows1 @ [e' # c # v # cs] @ rows2)\<rparr>)) vn ts
          = parse_vehicle_info (Inr sp) vn ts"
    using parse_label_cong [of e e' sp rows1 c v cs rows2 vn ts] by blast
  have c6: "details_table sp = Some rows
        \<and> (\<forall>r \<in> set rows. length r \<ge> 3 \<longrightarrow>
              \<not> contains ''make'' (lower (get_text_strip (r ! 0)))
              \<or> contains ''year'' (lower (get_text_strip (r ! 0))))
      \<longrightarrow> map_of (parse_vehicle_info (Inr sp) vn ts) ''make'' = Some []"
    using make_needs_label [of sp rows vn ts] by blast
  have c7: "details_table sp = Some (rows1 @ [[''Year of Manufacture''] # c # v # cs] @ rows2)
        \<and> details_table sp' = Some (rows1 @ rows2)
      \<longrightarrow> map_of (parse_vehicle_info (Inr sp) vn ts) ''make''
          = map_of (parse_vehicle_info (Inr sp') vn ts) ''make''"
    using year_row_leaves_make [of sp rows1 c v cs rows2 sp' vn ts] by blast
  have c8: "details_table sp = Some (rows1 @ [[''Make''] # c # v # cs] @ rows2)
        \<and> (\<forall>r \<in> set rows2. row_field r \<noteq> Some ''make'')
      \<longrightarrow> map_of (parse_vehicle_info (Inr sp) vn ts) ''make'' = Some (get_text_strip v)"
    using make_row_sets_make [of sp rows1 c v cs rows2 vn ts] by blast
  have c9: "f \<in> set table_fields
        \<and> (\<forall>rows. details_table sp = Some rows \<longrightarrow> (\<forall>row \<in> set rows. row_field row \<noteq> Some f))
      \<longrightarrow> map_of (parse_vehicle_info (Inr sp) vn ts) f = Some []"
    using parse_table_field_empty [of f sp vn ts] by blast
  have c10: "found_report_date sp = None
      \<longrightarrow> map_of (parse_vehicle_info (Inr sp) vn ts) ''report_date'' = Some []"
    by (simp add: parse_report_date)
  have c11: "f \<in> set attribute_fields \<longrightarrow> map_of (parse_vehicle_info (Inl x) vn ts) f = None"
    using unscanned_has_no_attribute [of f x vn ts] by blast
  show ?thesis
    using c1 get_text_strip_single [of l] c3 strip_inside [of l] c5 c6 c7 c8 c9 c10 c11
    by (intro conjI)
qed

theorem label_matching_witness:
  "map_of (parse_vehicle_info
             (page None (Some [table_row ''Year of Manufacture'' ''2015'',
                               table_row ''Make'' '' Toyota '']))
             ''CAB-1234'' ''2024-01-01T10:00:00'') ''make'' = Some ''Toyota''
   \<and> map_of (parse_vehicle_info
             (page None (Some [table_row ''Year of Manufacture'' ''2015'',
                               table_row ''Make'' '' Toyota '']))
             ''CAB-1234'' ''2024-01-01T10:00:00'') ''model'' = Some []
   \<and> map_of (parse_vehicle_info
             (page None (Some [table_row ''Year of Manufacture'' ''2015'',
                               table_row ''Make'' '' Toyota '']))
             ''CAB-1234'' ''2024-01-01T10:00:00'') ''report_date'' = Some []
   \<and> parse_vehicle_info
        (page None (Some [table_row ''Year of Manufacture'' ''2015'',
                          table_row ''  MAKE '' '' Toyota '']))
        ''CAB-1234'' ''2024-01-01T10:00:00''
      = parse_vehicle_info
        (page None (Some [table_row ''Year of Manufacture'' ''2015'',
                          table_row ''Make'' '' Toyota '']))
        ''CAB-1234'' ''2024-01-01T10:00:00''
   \<and> map_of (parse_vehicle_info
             (page None (Some [table_row ''Year of Manufacture'' ''2015'']))
             ''CAB-1234'' ''2024-01-01T10:00:00'') ''make'' = Some []
   \<and> strip ''  Make '' = ''Make''
   \<and> \<not> is_space (hd (strip ''  Make ''))
   \<and> map_of (parse_vehicle_info (Inl ''bad markup'') ''CAB-1234'' ''2024-01-01T10:00:00'') ''model''
       = None"
proof -
  let ?yom = "table_row ''Year of Manufacture'' ''2015''"
  let ?mk = "table_row ''Make'' '' Toyota ''"
  let ?MK = "table_row ''  MAKE '' '' Toyota ''"
  let ?sp = "\<lparr> report_date_parent = None, vehicle_reg_parent = None,
               details_table = Some [?yom, ?mk] \<rparr>"
  let ?sy = "\<lparr> report_date_parent = None, vehicle_reg_parent = None,
               details_table = Some [?yom] \<rparr>"
  have t: "details_table ?sp = Some [?yom, ?mk]" by simp
  have t8: "details_table ?sp = Some ([?yom] @ [[''Make''] # [''-''] # ['' Toyota ''] # []] @ [])"
    by (simp add: table_row_def)
  have v: "get_text_strip ['' Toyota ''] = ''Toyota''" by code_simp
  have m: "''model'' \<in> set table_fields" by (simp add: table_fields_def)
  have ma: "''model'' \<in> set attribute_fields"
    by (simp add: attribute_fields_def table_fields_def)
  have nomodel: "\<forall>rows. details_table ?sp = Some rows
                   \<longrightarrow> (\<forall>row \<in> set rows. row_field row \<noteq> Some ''model'')"
  proof -
    have "row_field ?yom \<noteq> Some ''model''" and "row_field ?mk \<noteq> Some ''model''"
      by code_simp+
    then show ?thesis by simp
  qed
  have nodate: "found_report_date ?sp = None" by (simp add: found_report_date_def)
  have lc: "lower (get_text_strip [''Make'']) = lower (get_text_strip [''  MAKE ''])"
    by code_simp
  have ty: "details_table ?sy = Some [?yom]" by simp
  have nomake: "\<forall>r \<in> set [?yom]. length r \<ge> 3 \<longrightarrow>
              \<not> contains ''make'' (lower (get_text_strip (r ! 0)))
              \<or> contains ''year'' (lower (get_text_strip (r ! 0)))"
  proof -
    have "contains ''year'' (lower (get_text_strip (?yom ! 0)))" by code_simp
    then show ?thesis by simp
  qed
  have st: "strip ''  Make '' = ''Make''" by code_simp
  have a1: "map_of (parse_vehicle_info (Inr ?sp) ''CAB-1234'' ''2024-01-01T10:00:00'') ''make''
              = Some ''Toyota''"
    using label_matching [where sp = ?sp and ?rows1.0 = "[?yom]" and c = "[''-'']"
        and v = "['' Toyota '']" and cs = "[]" and ?rows2.0 = "[]"
        and vn = "''CAB-1234''" and ts = "''2024-01-01T10:00:00''"] t8 v
    by simp
  have a2: "map_of (parse_vehicle_info (Inr ?sp) ''CAB-1234'' ''2024-01-01T10:00:00'') ''model''
              = Some []
     \<and> map_of (parse_vehicle_info (Inr ?sp) ''CAB-1234'' ''2024-01-01T10:00:00'') ''report_date''
              = Some []"
    using label_matching [where sp = ?sp and f = "''model''"
        and vn = "''CAB-1234''" and ts = "''2024-01-01T10:00:00''"] m nomodel nodate
    by blast
  have a3: "parse_vehicle_info
              (Inr (?sp\<lparr>details_table := Some ([?yom] @ [[''  MAKE ''] # [''-''] # ['' Toyota ''] # []] @ [])\<rparr>))
              ''CAB-1234'' ''2024-01-01T10:00:00''
            = parse_vehicle_info (Inr ?sp) ''CAB-1234'' ''2024-01-01T10:00:00''"
    using label_matching [where sp = ?sp and e = "[''Make'']" and e' = "[''  MAKE '']"
        and ?rows1.0 = "[?yom]" and c = "[''-'']"
        and v = "['' Toyota '']" and cs = "[]" and ?rows2.0 = "[]"
        and vn = "''CAB-1234''" and ts = "''2024-01-01T10:00:00''"] t8 lc
    by blast
  have a4: "map_of (parse_vehicle_info (Inr ?sy) ''CAB-1234'' ''2024-01-01T10:00:00'') ''make''
              = Some []"
    using label_matching [where sp = ?sy and rows = "[?yom]"
        and vn = "''CAB-1234''" and ts = "''2024-01-01T10:00:00''"] ty nomake
    by blast
  have a5: "\<not> is_space (hd (strip ''  Make ''))"
    using label_matching [where l = "''  Make ''"] st by simp
  have a6: "map_of (parse_vehicle_info (Inl ''bad markup'') ''CAB-1234'' ''2024-01-01T10:00:00'')
              ''model'' = None"
    using label_matching [where f = "''model''" and x = "''bad markup''"
        and vn = "''CAB-1234''" and ts = "''2024-01-01T10:00:00''"] ma
    by blast
  show ?thesis
    using a1 a2 a3 a4 a5 a6 st by (simp add: page_def table_row_def)
qed




section \<open>The shape of a record\<close>

lemma parse_vehicle_number:
  "map_of (parse_vehicle_info d vn ts) ''vehicle_number'' = Some vn"
proof (cases d)
  case (Inl e)
  then show ?thesis by (simp add: parse_vehicle_info_def)
next
  case (Inr sp)
  have "''vehicle_number'' \<notin> set table_fields" by (simp add: table_fields_def)
  then show ?thesis
    using Inr by (simp add: parse_vehicle_info_def map_of_scan_table_other
        map_of_extract_report_date initial_result_def)
qed

lemma parse_timestamp:
  "map_of (parse_vehicle_info d vn ts) ''timestamp'' = Some ts"
proof (cases d)
  case (Inl e)
  then show ?thesis by (simp add: parse_vehicle_info_def)
next
  case (Inr sp)
  have "''timestamp'' \<notin> set table_fields" by (simp add: table_fields_def)
  then show ?thesis
    using Inr by (simp add: parse_vehicle_info_def map_of_scan_table_other
        map_of_extract_report_date initial_result_def)
qed

lemma parse_table_field_present:
  assumes "f \<in> set table_fields"
  shows "\<exists>v. map_of (parse_vehicle_info (Inr sp) vn ts) f = Some v"
proof (cases "details_table sp")
  case None
  then show ?thesis
    using assms by (simp add: parse_vehicle_info_def scan_table_def map_of_extract_report_date
        table_field_not_report_date map_of_initial_table_field)
next
  case (Some rows)
  then show ?thesis
    using assms
    by (cases "filter (\<lambda>r. row_field r = Some f) rows")
       (simp_all add: parse_vehicle_info_def scan_table_def map_of_fold_scan_row
          map_of_extract_report_date table_field_not_report_date map_of_initial_table_field)
qed

lemma parse_attribute_present:
  assumes "f \<in> set attribute_fields"
  shows "\<exists>v. map_of (parse_vehicle_info (Inr sp) vn ts) f = Some v"
  using assms parse_table_field_present [of f sp vn ts] parse_report_date [of sp vn ts]
  by (auto simp: attribute_fields_def)

lemma parse_error_present:
  "map_of (parse_vehicle_info d vn ts) ''status'' \<noteq> Some ''success''
     \<Longrightarrow> \<exists>e. map_of (parse_vehicle_info d vn ts) ''error'' = Some e"
proof (cases d)
  case (Inl e)
  then show ?thesis by (simp add: parse_vehicle_info_def)
next
  case (Inr sp)
  assume "map_of (parse_vehicle_info d vn ts) ''status'' \<noteq> Some ''success''"
  then show ?thesis using Inr by (simp add: parse_status_success)
qed

lemma parse_status_cases:
  "map_of (parse_vehicle_info d vn ts) ''status'' = Some ''success''
   \<or> map_of (parse_vehicle_info d vn ts) ''status'' = Some ''parse_error''"
proof (cases d)
  case (Inl e)
  then show ?thesis by (simp add: parse_vehicle_info_def)
next
  case (Inr sp)
  then show ?thesis by (simp add: parse_status_success)
qed

lemma parse_success_is_scanned:
  "map_of (parse_vehicle_info d vn ts) ''status'' = Some ''success'' \<Longrightarrow> \<exists>sp. d = Inr sp"
  by (cases d) (simp_all add: parse_vehicle_info_def)

lemma get_vehicle_info_cases:
  "(\<exists>e. fst (get_vehicle_info self env vn) = failed_record vn e (now env))
   \<or> (\<exists>d. fst (get_vehicle_info self env vn) = parse_vehicle_info d vn (now env))"
  by (auto simp: get_vehicle_info_def Let_def split: sum.splits option.splits)

text \<open>
  Claim C9: every record that \<open>get_vehicle_info\<close> produces for a key holds that key, a
  status among the three values \<open>success\<close>, \<open>failed\<close> and \<open>parse_error\<close> (the code's
  names of the spec's \<open>success\<close>, \<open>fetch_failed\<close> and \<open>parse_failed\<close>) and a time stamp;
  with status \<open>failed\<close> or \<open>parse_error\<close> it holds an error message, and with status
  \<open>success\<close> it holds every attribute field.
\<close>

theorem record_invariant:
  assumes "r = fst (get_vehicle_info self env vn)"
  shows "map_of r ''vehicle_number'' = Some vn
    \<and> map_of r ''status'' \<in> {Some ''success'', Some ''failed'', Some ''parse_error''}
    \<and> map_of r ''timestamp'' = Some (now env)
    \<and> (map_of r ''status'' \<in> {Some ''failed'', Some ''parse_error''}
         \<longrightarrow> (\<exists>e. map_of r ''error'' = Some e))
    \<and> (map_of r ''status'' = Some ''success''
         \<longrightarrow> (\<forall>f \<in> set attribute_fields. \<exists>v. map_of r f = Some v))"
proof -
  consider (failed) e where "r = failed_record vn e (now env)"
    | (parsed) d where "r = parse_vehicle_info d vn (now env)"
    using assms get_vehicle_info_cases [of self env vn] by auto
  then show ?thesis
  proof cases
    case failed
    then show ?thesis by (simp add: failed_record_def)
  next
    case parsed
    have st: "map_of r ''status'' = Some ''success'' \<or> map_of r ''status'' = Some ''parse_error''"
      using parsed parse_status_cases by simp
    have err: "map_of r ''status'' \<in> {Some ''failed'', Some ''parse_error''}
         \<longrightarrow> (\<exists>e. map_of r ''error'' = Some e)"
      using parsed parse_error_present [of d vn "now env"] by auto
    have attrs: "map_of r ''status'' = Some ''success''
         \<longrightarrow> (\<forall>f \<in> set attribute_fields. \<exists>v. map_of r f = Some v)"
      using parsed parse_success_is_scanned [of d vn "now env"] parse_attribute_present
      by auto
    show ?thesis
      using st err attrs parsed parse_vehicle_number parse_timestamp by auto
  qed
qed

theorem record_invariant_witness:
  "map_of (fst (get_vehicle_info (new_scraper 3 (Finite 2) ''2200000000'' ''0777777777'' (Some ''ABCDEF''))
                  \<lparr> sleep = sleep_returns, redirects = [],
                    post = Inr \<lparr> status_code = 200,
                                  body = page None (Some [table_row ''Make'' ''Toyota'']) \<rparr>,
                    now = ''2024-01-01T10:00:00'' \<rparr> ''CAB-1234'')) ''vehicle_number''
     = Some ''CAB-1234''
   \<and> map_of (fst (get_vehicle_info (new_scraper 3 (Finite 2) ''2200000000'' ''0777777777'' (Some ''ABCDEF''))
                  \<lparr> sleep = sleep_returns, redirects = [],
                    post = Inr \<lparr> status_code = 200,
                                  body = page None (Some [table_row ''Make'' ''Toyota'']) \<rparr>,
                    now = ''2024-01-01T10:00:00'' \<rparr> ''CAB-1234'')) ''status''
     = Some ''success''
   \<and> (\<exists>v. map_of (fst (get_vehicle_info (new_scraper 3 (Finite 2) ''2200000000'' ''0777777777'' (Some ''ABCDEF''))
                  \<lparr> sleep = sleep_returns, redirects = [],
                    post = Inr \<lparr> status_code = 200,
                                  body = page None (Some [table_row ''Make'' ''Toyota'']) \<rparr>,
                    now = ''2024-01-01T10:00:00'' \<rparr> ''CAB-1234'')) ''model'' = Some v)
   \<and> map_of (fst (get_vehicle_info (new_scraper 3 (Finite 2) ''2200000000'' ''0777777777'' (Some ''ABCDEF''))
                  \<lparr> sleep = sleep_returns, redirects = [],
                    post = Inr \<lparr> status_code = 200, body = Inl ''bad markup'' \<rparr>,
                    now = ''2024-01-01T10:00:00'' \<rparr> ''CAB-1234'')) ''status''
     = Some ''parse_error''
   \<and> (\<exists>e. map_of (fst (get_vehicle_info (new_scraper 3 (Finite 2) ''2200000000'' ''0777777777'' (Some ''ABCDEF''))
                  \<lparr> sleep = sleep_returns, redirects = [],
                    post = Inr \<lparr> status_code = 200, body = Inl ''bad markup'' \<rparr>,
                    now = ''2024-01-01T10:00:00'' \<rparr> ''CAB-1234'')) ''error'' = Some e)"
proof -
  let ?S = "new_scraper 3 (Finite 2) ''2200000000'' ''0777777777'' (Some ''ABCDEF'')"
  let ?ok = "\<lparr> sleep = sleep_returns, redirects = [],
                 post = Inr \<lparr> status_code = 200,
                               body = page None (Some [table_row ''Make'' ''Toyota'']) \<rparr>,
                 now = ''2024-01-01T10:00:00'' \<rparr>"
  let ?bad = "\<lparr> sleep = sleep_returns, redirects = [],
                  post = Inr \<lparr> status_code = 200, body = Inl ''bad markup'' \<rparr>,
                  now = ''2024-01-01T10:00:00'' \<rparr>"
  have s1: "map_of (fst (get_vehicle_info ?S ?ok ''CAB-1234'')) ''status'' = Some ''success''"
    by code_simp
  have s2: "map_of (fst (get_vehicle_info ?S ?bad ''CAB-1234'')) ''status'' = Some ''parse_error''"
    by code_simp
  have m: "''model'' \<in> set attribute_fields"
    by (simp add: attribute_fields_def table_fields_def)
  from record_invariant [OF refl, of ?S ?ok "''CAB-1234''"] s1 m
  have a: "map_of (fst (get_vehicle_info ?S ?ok ''CAB-1234'')) ''vehicle_number'' = Some ''CAB-1234''
     \<and> (\<exists>v. map_of (fst (get_vehicle_info ?S ?ok ''CAB-1234'')) ''model'' = Some v)"
    by blast
  from record_invariant [OF refl, of ?S ?bad "''CAB-1234''"] s2
  have b: "\<exists>e. map_of (fst (get_vehicle_info ?S ?bad ''CAB-1234'')) ''error'' = Some e"
    by blast
  show ?thesis using a b s1 s2 by blast
qed

section \<open>The fetcher: one call, failures as records\<close>





section \<open>The thread pool coordinator: one record per key, in completion order\<close>

lemma get_vehicle_info_number:
  "map_of (fst (get_vehicle_info self env vn)) ''vehicle_number'' = Some vn"
  using get_vehicle_info_cases [of self env vn]
  by (auto simp: failed_record_def parse_vehicle_number)

lemma get_vehicle_info_nonempty: "fst (get_vehicle_info self env vn) \<noteq> []"
  using get_vehicle_info_number [of self env vn] by auto

lemma collect_submit:
  "collect vn ts (submit self env vn) results = results @ [fst (get_vehicle_info self env vn)]"
  by (simp add: collect_def submit_def get_vehicle_info_nonempty)

lemma fold_collect:
  "fold (\<lambda>i results. collect (keys ! i) (now (env i)) (submit self (env i) (keys ! i)) results)
        completion acc
     = acc @ map (task_record self env keys) completion"
  by (induction completion arbitrary: acc) (simp_all add: collect_submit task_record_def)

lemma process_vehicles_map:
  "1 \<le> max_workers self
     \<Longrightarrow> process_vehicles self env completion keys
           = Inr (map (task_record self env keys) completion)"
  by (simp add: process_vehicles_def fold_collect)

lemma process_vehicles_raises:
  "max_workers self \<le> 0
     \<Longrightarrow> process_vehicles self env completion keys = Inl ''max_workers must be greater than 0''"
  by (simp add: process_vehicles_def)

lemma record_key_task: "record_key (task_record self env keys i) = Some (keys ! i)"
  by (simp add: record_key_def task_record_def get_vehicle_info_number)

lemma keys_of_tasks:
  "map record_key (map (task_record self env keys) completion)
     = map (\<lambda>i. Some (keys ! i)) completion"
  by (simp add: record_key_task)


lemma completion_set:
  assumes "mset completion = mset [0..<n]"
  shows "set completion = {0..<n}" and "length completion = n"
proof -
  show "set completion = {0..<n}" using assms by (metis mset_eq_setD set_upt)
  show "length completion = n" using assms by (metis mset_eq_length length_upt diff_zero)
qed

lemma input_order_keys: "map (\<lambda>i. Some (keys ! i)) [0..<length keys] = map Some keys"
proof -
  have "map (\<lambda>i. Some (keys ! i)) [0..<length keys]
          = map Some (map (\<lambda>i. keys ! i) [0..<length keys])"
    by simp
  also have "\<dots> = map Some keys" by (simp add: map_nth)
  finally show ?thesis .
qed

lemma input_order_only:
  assumes "mset completion = mset [0..<length keys]" and "distinct keys"
    and "map (\<lambda>i. Some (keys ! i)) completion = map Some keys"
  shows "completion = [0..<length keys]"
proof (rule nth_equalityI)
  show len: "length completion = length [0..<length keys]"
    using completion_set(2) [OF assms(1)] by simp
  fix j
  assume j: "j < length completion"
  then have jn: "j < length keys" using len by simp
  have "completion ! j \<in> set completion" using j by simp
  then have cn: "completion ! j < length keys"
    using completion_set(1) [OF assms(1)] by simp
  have "map (\<lambda>i. Some (keys ! i)) completion ! j = map Some keys ! j"
    using assms(3) by simp
  then have "keys ! (completion ! j) = keys ! j" using j jn by simp
  then have "completion ! j = j"
    using assms(2) cn jn by (simp add: nth_eq_iff_index_eq)
  then show "completion ! j = [0..<length keys] ! j" using jn by simp
qed



text \<open>
  Claim C3, amended: \<open>process_vehicles\<close> returns the records in the order in which
  \<open>as_completed\<close> yields the futures: the record at position \<open>j\<close> is the one of the key at
  input position \<open>completion ! j\<close>. The list is in input order when the futures are yielded
  in input order and, for distinct keys, only then; nothing puts the records back into
  input order. Every record carries its key, and for distinct keys exactly one record
  carries each key, so that a consumer can restore the input order.
\<close>

theorem completion_order:
  assumes "1 \<le> max_workers self"
    and "mset completion = mset [0..<length keys]"
  shows "\<exists>results.
      process_vehicles self env completion keys = Inr results
    \<and> map record_key results = map (\<lambda>i. Some (keys ! i)) completion
    \<and> (completion = [0..<length keys] \<longrightarrow> map record_key results = map Some keys)
    \<and> (distinct keys
         \<longrightarrow> (map record_key results = map Some keys \<longleftrightarrow> completion = [0..<length keys]))
    \<and> (distinct keys
         \<longrightarrow> (\<forall>i<length keys. \<exists>!r. r \<in> set results \<and> record_key r = Some (keys ! i)))"
proof -
  let ?rs = "map (task_record self env keys) completion"
  have run: "process_vehicles self env completion keys = Inr ?rs"
    using assms(1) by (rule process_vehicles_map)
  have ks: "map record_key ?rs = map (\<lambda>i. Some (keys ! i)) completion"
    by (rule keys_of_tasks)
  have ord: "completion = [0..<length keys] \<longrightarrow> map record_key ?rs = map Some keys"
  proof
    assume "completion = [0..<length keys]"
    then have "map (\<lambda>i. Some (keys ! i)) completion = map Some keys"
      using input_order_keys [of keys] by simp
    then show "map record_key ?rs = map Some keys" using ks by (simp only:)
  qed
  have only: "distinct keys
         \<longrightarrow> (map record_key ?rs = map Some keys \<longleftrightarrow> completion = [0..<length keys])"
  proof
    assume d: "distinct keys"
    show "map record_key ?rs = map Some keys \<longleftrightarrow> completion = [0..<length keys]"
    proof
      assume "map record_key ?rs = map Some keys"
      then have "map (\<lambda>i. Some (keys ! i)) completion = map Some keys"
        using ks by (simp only:)
      then show "completion = [0..<length keys]"
        by (rule input_order_only [OF assms(2) d])
    next
      assume "completion = [0..<length keys]"
      then show "map record_key ?rs = map Some keys" using ord by blast
    qed
  qed
  have uniq: "distinct keys
         \<longrightarrow> (\<forall>i<length keys. \<exists>!r. r \<in> set ?rs \<and> record_key r = Some (keys ! i))"
  proof (intro impI allI)
    fix i
    assume d: "distinct keys" and i: "i < length keys"
    have sc: "set completion = {0..<length keys}" using completion_set(1) [OF assms(2)] .
    show "\<exists>!r. r \<in> set ?rs \<and> record_key r = Some (keys ! i)"
    proof (rule ex1I [of _ "task_record self env keys i"])
      show "task_record self env keys i \<in> set ?rs
            \<and> record_key (task_record self env keys i) = Some (keys ! i)"
        using i sc by (simp add: record_key_task)
    next
      fix r
      assume r: "r \<in> set ?rs \<and> record_key r = Some (keys ! i)"
      then obtain j where j: "j \<in> set completion" "r = task_record self env keys j"
        by auto
      then have "j < length keys" using sc by simp
      moreover have "keys ! j = keys ! i" using r j by (simp add: record_key_task)
      ultimately have "j = i" using d i by (simp add: nth_eq_iff_index_eq)
      then show "r = task_record self env keys i" using j by simp
    qed
  qed
  show ?thesis using run ks ord only uniq by blast
qed

theorem completion_order_witness:
  "(1::int) \<le> max_workers (new_scraper 2 (Finite 1) ''2200000000'' ''0777777777'' (Some ''ABCDEF''))
   \<and> mset [2, 0, 1] = mset [0..<length [''CAB-1234'', ''KX-5678'', ''WP-0001'']]
   \<and> distinct [''CAB-1234'', ''KX-5678'', ''WP-0001'']
   \<and> process_vehicles (new_scraper 2 (Finite 1) ''2200000000'' ''0777777777'' (Some ''ABCDEF''))
        (always_status 404) [2, 0, 1] [''CAB-1234'', ''KX-5678'', ''WP-0001'']
       = Inr [failed_record ''WP-0001'' ''HTTP 404'' ''2024-01-01T10:00:00'',
              failed_record ''CAB-1234'' ''HTTP 404'' ''2024-01-01T10:00:00'',
              failed_record ''KX-5678'' ''HTTP 404'' ''2024-01-01T10:00:00'']
   \<and> map record_key [failed_record ''WP-0001'' ''HTTP 404'' ''2024-01-01T10:00:00'',
                      failed_record ''CAB-1234'' ''HTTP 404'' ''2024-01-01T10:00:00'',
                      failed_record ''KX-5678'' ''HTTP 404'' ''2024-01-01T10:00:00'']
       = [Some ''WP-0001'', Some ''CAB-1234'', Some ''KX-5678'']
   \<and> [2, 0, 1] \<noteq> [0..<length [''CAB-1234'', ''KX-5678'', ''WP-0001'']]
   \<and> process_vehicles (new_scraper 2 (Finite 1) ''2200000000'' ''0777777777'' (Some ''ABCDEF''))
        (always_status 404) [0, 1, 2] [''CAB-1234'', ''KX-5678'', ''WP-0001'']
       = Inr [failed_record ''CAB-1234'' ''HTTP 404'' ''2024-01-01T10:00:00'',
              failed_record ''KX-5678'' ''HTTP 404'' ''2024-01-01T10:00:00'',
              failed_record ''WP-0001'' ''HTTP 404'' ''2024-01-01T10:00:00'']"
proof -
  let ?keys = "[''CAB-1234'', ''KX-5678'', ''WP-0001'']"
  let ?S = "new_scraper 2 (Finite 1) ''2200000000'' ''0777777777'' (Some ''ABCDEF'')"
  let ?out = "[failed_record ''WP-0001'' ''HTTP 404'' ''2024-01-01T10:00:00'',
               failed_record ''CAB-1234'' ''HTTP 404'' ''2024-01-01T10:00:00'',
               failed_record ''KX-5678'' ''HTTP 404'' ''2024-01-01T10:00:00'']"
  let ?inorder = "[failed_record ''CAB-1234'' ''HTTP 404'' ''2024-01-01T10:00:00'',
                   failed_record ''KX-5678'' ''HTTP 404'' ''2024-01-01T10:00:00'',
                   failed_record ''WP-0001'' ''HTTP 404'' ''2024-01-01T10:00:00'']"
  have w: "1 \<le> max_workers ?S" by (simp add: new_scraper_def)
  have u: "[0..<length ?keys] = [0, 1, 2]" by (simp add: upt_rec)
  have h1: "mset [2, 0, 1] = mset [0..<length ?keys]" by (simp add: upt_rec)
  have h2: "mset [0, 1, 2] = mset [0..<length ?keys]" by (simp add: upt_rec)
  have d: "distinct ?keys" by simp
  have r1: "process_vehicles ?S (always_status 404) [2, 0, 1] ?keys = Inr ?out" by code_simp
  have r2: "process_vehicles ?S (always_status 404) [0, 1, 2] ?keys = Inr ?inorder" by code_simp
  from completion_order [OF w h1, of "always_status 404"] r1
  have a: "map record_key ?out = [Some ''WP-0001'', Some ''CAB-1234'', Some ''KX-5678'']"
    by auto
  from completion_order [OF w h1, of "always_status 404"] r1 d a
  have ne: "[2, 0, 1] \<noteq> [0..<length ?keys]"
    by auto
  from completion_order [OF w h2, of "always_status 404"] r2 u
  have b: "map record_key ?inorder = map Some ?keys"
    by auto
  show ?thesis using w h1 d r1 a ne r2 by blast
qed

text \<open>
  Claim C3, as stated: the returned records correspond position by position to the input
  keys, whatever the order in which the workers finish. It fails for two keys when the
  future of the second is yielded first.
\<close>

theorem input_order_counterexample:
  "process_vehicles (new_scraper 2 (Finite 1) ''2200000000'' ''0777777777'' (Some ''ABCDEF''))
        (always_status 500) [1, 0] [''CAB-1234'', ''KX-5678'']
     = Inr [failed_record ''KX-5678'' ''HTTP 500'' ''2024-01-01T10:00:00'',
            failed_record ''CAB-1234'' ''HTTP 500'' ''2024-01-01T10:00:00'']
   \<and> map record_key [failed_record ''KX-5678'' ''HTTP 500'' ''2024-01-01T10:00:00'',
                      failed_record ''CAB-1234'' ''HTTP 500'' ''2024-01-01T10:00:00'']
     \<noteq> map Some [''CAB-1234'', ''KX-5678'']"
  by code_simp

section \<open>The web front end: the sequential loop and its cancellation\<close>














end
